theory Spec2Isabelle
  imports Main "HOL-Library.Word" "HOL-Library.Sublist"
begin

section \<open>JavaScript strings\<close>

text \<open>
  A JavaScript string is a sequence of UTF-16 code units. The regular expressions of
  the editor use the class \<^verbatim>\<open>\s\<close>, whose members lie partly outside Latin-1, so a code
  unit is a 16-bit word and not a \<^typ>\<open>char\<close>. \<open>js\<close> turns an ASCII literal into such a
  string.
\<close>

type_synonym jschar = "16 word"
type_synonym jsstring = "jschar list"

definition js :: "string \<Rightarrow> jsstring" where
  "js s = map of_char s"

abbreviation star :: jschar where "star \<equiv> 0x2A"
abbreviation tilde :: jschar where "tilde \<equiv> 0x7E"
abbreviation newline :: jschar where "newline \<equiv> 0x0A"

text \<open>
  The class \<^verbatim>\<open>\s\<close> of ECMAScript: tab, line feed, vertical tab, form feed, carriage
  return, space, no-break space, U+1680, U+2000 to U+200A, the line and paragraph
  separators, U+202F, U+205F, U+3000 and the byte order mark.
\<close>

definition is_space :: "jschar \<Rightarrow> bool" where
  "is_space c =
     (c \<in> set [0x9, 0xA, 0xB, 0xC, 0xD, 0x20, 0xA0, 0x1680, 0x2028, 0x2029,
               0x202F, 0x205F, 0x3000, 0xFEFF]
      \<or> (0x2000 \<le> c \<and> c \<le> 0x200A))"

subsection \<open>Global regular-expression replacement\<close>

text \<open>
  \<^verbatim>\<open>s.replace(/re/g, r)\<close> scans \<open>s\<close> from the left. Where the expression matches at
  the current position, the replacement is emitted and the scan resumes after the match;
  otherwise the code unit is copied and the scan moves on by one. A matcher gives the
  length of the match that starts at the head of its argument. The six expressions of
  the export never match the empty string, so the empty-match rule of \<^verbatim>\<open>replace\<close> plays
  no part.
\<close>

fun replace_all :: "(jsstring \<Rightarrow> nat option) \<Rightarrow> jsstring \<Rightarrow> jsstring \<Rightarrow> jsstring" where
  "replace_all m r [] = []"
| "replace_all m r (c # cs) =
     (case m (c # cs) of
        None \<Rightarrow> c # replace_all m r cs
      | Some n \<Rightarrow> r @ replace_all m r (drop (n - 1) cs))"

text \<open>
  \<^verbatim>\<open>/d\s+/\<close> for a literal \<open>d\<close>: the literal, then the longest run of white space, which
  must not be empty.
\<close>

definition match_delim_ws :: "jsstring \<Rightarrow> jsstring \<Rightarrow> nat option" where
  "match_delim_ws d s =
     (if take (length d) s = d \<and> takeWhile is_space (drop (length d) s) \<noteq> []
      then Some (length d + length (takeWhile is_space (drop (length d) s)))
      else None)"

text \<open>
  \<^verbatim>\<open>/\s+d/\<close> for a literal \<open>d\<close> that starts with a code unit outside \<^verbatim>\<open>\s\<close>: the greedy
  \<^verbatim>\<open>\s+\<close> takes the longest run of white space; giving code units back cannot help,
  since what follows a shorter run is white space and \<open>d\<close> does not start with any. So
  the expression matches exactly when the longest run is not empty and \<open>d\<close> follows it.
\<close>

definition match_ws_delim :: "jsstring \<Rightarrow> jsstring \<Rightarrow> nat option" where
  "match_ws_delim d s =
     (if takeWhile is_space s \<noteq> []
         \<and> take (length d) (dropWhile is_space s) = d
      then Some (length (takeWhile is_space s) + length d)
      else None)"

subsection \<open>Splitting and joining\<close>

text \<open>
  \<^verbatim>\<open>s.split(sep)\<close> for a separator of one code unit. The result is never empty: the
  empty string splits into one empty string. \<^verbatim>\<open>split\<close> stops after \<open>2\<^sup>3\<^sup>2 - 1\<close>
  elements; no engine builds a string long enough to get there, and the model leaves
  that limit out.
\<close>

fun str_split :: "jschar \<Rightarrow> jsstring \<Rightarrow> jsstring list" where
  "str_split sep [] = [[]]"
| "str_split sep (c # cs) =
     (if c = sep then [] # str_split sep cs
      else (case str_split sep cs of
              [] \<Rightarrow> [[c]]
            | l # ls \<Rightarrow> (c # l) # ls))"

text \<open>
  A JavaScript array may have holes: an element is \<open>None\<close> where the array has no
  value at that index. Reading an index outside the array gives \<^verbatim>\<open>undefined\<close>
  (\<open>None\<close>). An array index is an integer from 0 to \<open>2\<^sup>3\<^sup>2 - 2\<close>. Writing at an array
  index at or beyond the length extends the array and leaves holes in between; writing
  at any other number, a negative one or one from \<open>2\<^sup>3\<^sup>2 - 1\<close> on, sets an ordinary
  property and leaves the elements alone. \<^verbatim>\<open>join\<close> writes a hole as the empty string.
\<close>

definition array_get :: "'a option list \<Rightarrow> int \<Rightarrow> 'a option" where
  "array_get xs i = (if 0 \<le> i \<and> nat i < length xs then xs ! nat i else None)"

definition array_set :: "'a option list \<Rightarrow> int \<Rightarrow> 'a \<Rightarrow> 'a option list" where
  "array_set xs i v =
     (if i < 0 \<or> 4294967294 < i then xs
      else if nat i < length xs then xs[nat i := Some v]
      else xs @ replicate (nat i - length xs) None @ [Some v])"

fun array_join :: "jschar \<Rightarrow> jsstring option list \<Rightarrow> jsstring" where
  "array_join sep [] = []"
| "array_join sep [x] = (case x of None \<Rightarrow> [] | Some l \<Rightarrow> l)"
| "array_join sep (x # y # ys) =
     (case x of None \<Rightarrow> [] | Some l \<Rightarrow> l) @ sep # array_join sep (y # ys)"

section \<open>The editor and its libraries\<close>

text \<open>
  The component is glue between three libraries: the rich-text framework that owns the
  document, the markdown parser and the HTML-to-markdown serializer. None of them is
  part of the repository, so they are parameters of the model. The framework's editor
  instance has a state of type \<open>'e\<close>; its accessors read the state and its commands
  map it to a new state (a command reports failure by its boolean result, which the
  component ignores). The two converters may throw.

  The engine is a parameter as well, in one respect: it builds no string longer than its
  limit \<open>max_string_length\<close> and throws a \<^verbatim>\<open>RangeError\<close> instead. The limit matters where a
  short input makes a long string, which in this component only the \<^verbatim>\<open>join\<close> of
  \<open>setLine\<close> does, over an array with holes; it is checked there. The concatenation in
  \<open>insertText\<close> and the results of the converters are taken to fit.
\<close>

datatype error = Error jsstring | RangeError

datatype jsnumber = Num int | NaN

record 'e framework =
  getHTML :: "'e \<Rightarrow> jsstring"
  doc_textContent :: "'e \<Rightarrow> jsstring"
  doc_textBetween :: "'e \<Rightarrow> int \<Rightarrow> int \<Rightarrow> jsstring"
  doc_resolve_start :: "'e \<Rightarrow> int \<Rightarrow> nat \<Rightarrow> int"
  selection_from :: "'e \<Rightarrow> int"
  selection_to :: "'e \<Rightarrow> int"
  selection_anchor :: "'e \<Rightarrow> int"
  cmd_setContent :: "jsstring \<Rightarrow> 'e \<Rightarrow> 'e"
  cmd_focus :: "'e \<Rightarrow> 'e"
  cmd_insertContent :: "jsstring \<Rightarrow> 'e \<Rightarrow> 'e"
  cmd_deleteRange :: "int \<Rightarrow> int \<Rightarrow> 'e \<Rightarrow> 'e"
  cmd_setTextSelection :: "jsnumber \<Rightarrow> jsnumber \<Rightarrow> 'e \<Rightarrow> 'e"
  turndown :: "jsstring \<Rightarrow> error + jsstring"
  marked_parse :: "jsstring \<Rightarrow> error + jsstring"
  max_string_length :: nat

text \<open>
  What the component can change: the editor instance (\<open>None\<close> while the framework has
  not created it), the console, and the calls made to the content-change callback. The
  component has one editor instance and passes it to every function, so the functions
  below take the state where the source takes the editor.
\<close>

record 'e state =
  editor :: "'e option"
  console :: "(jsstring \<times> error) list"
  content_changes :: "jsstring list"

section \<open>Conversion between the document and markdown\<close>

definition getMarkdownFromEditor :: "'e framework \<Rightarrow> 'e state \<Rightarrow> jsstring \<times> 'e state" where
  "getMarkdownFromEditor env s =
     (case editor s of
        None \<Rightarrow> ([], s)
      | Some e \<Rightarrow>
          (case turndown env (getHTML env e) of
             Inr markdown \<Rightarrow>
               (let markdown = replace_all (match_delim_ws [star, star]) [star, star] markdown;
                    markdown = replace_all (match_ws_delim [star, star]) [star, star] markdown;
                    markdown = replace_all (match_delim_ws [star]) [star] markdown;
                    markdown = replace_all (match_ws_delim [star]) [star] markdown;
                    markdown = replace_all (match_delim_ws [tilde, tilde]) [tilde, tilde] markdown;
                    markdown = replace_all (match_ws_delim [tilde, tilde]) [tilde, tilde] markdown
                in (markdown, s))
           | Inl err \<Rightarrow>
               (doc_textContent env e,
                s\<lparr>console := console s @ [(js ''Error serializing to markdown:'', err)]\<rparr>)))"

definition setMarkdownToEditor :: "'e framework \<Rightarrow> jsstring \<Rightarrow> 'e state \<Rightarrow> 'e state" where
  "setMarkdownToEditor env markdown s =
     (case editor s of
        None \<Rightarrow> s
      | Some e \<Rightarrow>
          (case marked_parse env markdown of
             Inr html \<Rightarrow> s\<lparr>editor := Some (cmd_setContent env html e)\<rparr>
           | Inl err \<Rightarrow>
               s\<lparr>console := console s @ [(js ''Error parsing markdown:'', err)],
                 editor := Some (cmd_setContent env markdown e)\<rparr>))"

text \<open>The handler the component registers for the framework's update event.\<close>

definition onUpdate :: "'e framework \<Rightarrow> 'e state \<Rightarrow> 'e state" where
  "onUpdate env s =
     (let (markdown, s') = getMarkdownFromEditor env s
      in s'\<lparr>content_changes := content_changes s' @ [markdown]\<rparr>)"

section \<open>The imperative handle\<close>

definition focus :: "'e framework \<Rightarrow> 'e state \<Rightarrow> 'e state" where
  "focus env s =
     (case editor s of None \<Rightarrow> s | Some e \<Rightarrow> s\<lparr>editor := Some (cmd_focus env e)\<rparr>)"

definition scrollToCursor :: "'e framework \<Rightarrow> 'e state \<Rightarrow> 'e state" where
  "scrollToCursor env s =
     (case editor s of None \<Rightarrow> s | Some e \<Rightarrow> s\<lparr>editor := Some (cmd_focus env e)\<rparr>)"

text \<open>An argument left out takes its default, the empty string.\<close>

definition insertText ::
  "'e framework \<Rightarrow> jsstring option \<Rightarrow> jsstring option \<Rightarrow> jsstring option \<Rightarrow> 'e state \<Rightarrow> 'e state" where
  "insertText env content prefixText suffixText s =
     (case editor s of
        None \<Rightarrow> s
      | Some e \<Rightarrow>
          (let markdown = (case prefixText of None \<Rightarrow> [] | Some p \<Rightarrow> p)
                          @ (case content of None \<Rightarrow> [] | Some c \<Rightarrow> c)
                          @ (case suffixText of None \<Rightarrow> [] | Some x \<Rightarrow> x)
           in s\<lparr>editor := Some (cmd_insertContent env markdown e)\<rparr>))"

definition removeText :: "'e framework \<Rightarrow> jsnumber \<Rightarrow> jsnumber \<Rightarrow> 'e state \<Rightarrow> 'e state" where
  "removeText env start len s =
     (case editor s of
        None \<Rightarrow> s
      | Some e \<Rightarrow>
          s\<lparr>editor := Some (cmd_deleteRange env (selection_from env e) (selection_to env e) e)\<rparr>)"

definition setContent :: "'e framework \<Rightarrow> jsstring \<Rightarrow> 'e state \<Rightarrow> 'e state" where
  "setContent env text s = setMarkdownToEditor env text s"

definition getContent :: "'e framework \<Rightarrow> 'e state \<Rightarrow> jsstring \<times> 'e state" where
  "getContent env s = getMarkdownFromEditor env s"

definition getSelectedContent :: "'e framework \<Rightarrow> 'e state \<Rightarrow> jsstring" where
  "getSelectedContent env s =
     (case editor s of
        None \<Rightarrow> []
      | Some e \<Rightarrow> doc_textBetween env e (selection_from env e) (selection_to env e))"

definition getCursorPosition :: "'e framework \<Rightarrow> 'e state \<Rightarrow> int" where
  "getCursorPosition env s =
     (case editor s of None \<Rightarrow> 0 | Some e \<Rightarrow> selection_anchor env e)"

definition setCursorPosition ::
  "'e framework \<Rightarrow> jsnumber \<Rightarrow> jsnumber option \<Rightarrow> 'e state \<Rightarrow> 'e state" where
  "setCursorPosition env startPos endPos s =
     (case editor s of
        None \<Rightarrow> s
      | Some e \<Rightarrow>
          (let endPosition =
                 (case endPos of
                    None \<Rightarrow> startPos
                  | Some NaN \<Rightarrow> startPos
                  | Some (Num n) \<Rightarrow> Num n)
           in s\<lparr>editor := Some (cmd_setTextSelection env startPos endPosition e)\<rparr>))"

definition getCursorLineNumber :: "'e framework \<Rightarrow> 'e state \<Rightarrow> int" where
  "getCursorLineNumber env s =
     (case editor s of
        None \<Rightarrow> 0
      | Some e \<Rightarrow> doc_resolve_start env e (selection_anchor env e) 1 - 1)"

definition getLine :: "'e framework \<Rightarrow> int \<Rightarrow> 'e state \<Rightarrow> jsstring \<times> 'e state" where
  "getLine env lineNumber s =
     (case editor s of
        None \<Rightarrow> ([], s)
      | Some e \<Rightarrow>
          (let (markdown, s') = getMarkdownFromEditor env s;
               lines = map Some (str_split newline markdown)
           in (case array_get lines lineNumber of None \<Rightarrow> [] | Some l \<Rightarrow> l, s')))"

text \<open>
  \<open>setLine\<close> catches nothing: when the join throws, the caller gets the error, and the
  editor is as the export left it. The result is the error thrown, if any, and the state.
\<close>

definition setLine ::
  "'e framework \<Rightarrow> int \<Rightarrow> jsstring \<Rightarrow> 'e state \<Rightarrow> error option \<times> 'e state" where
  "setLine env lineNumber text s =
     (case editor s of
        None \<Rightarrow> (None, s)
      | Some e \<Rightarrow>
          (let (markdown, s') = getMarkdownFromEditor env s;
               lines = map Some (str_split newline markdown);
               lines = array_set lines lineNumber text;
               joined = array_join newline lines
           in if max_string_length env < length joined then (Some RangeError, s')
              else (let s'' = setMarkdownToEditor env joined s'
                    in (None,
                        case editor s'' of
                          None \<Rightarrow> s''
                        | Some e' \<Rightarrow> s''\<lparr>editor := Some (cmd_focus env e')\<rparr>))))"

section \<open>Predicates on strings\<close>

text \<open>
  \<open>ws_deleted s t\<close>: the string \<open>t\<close> is \<open>s\<close> with some white-space code units taken out,
  everything else kept in place.
\<close>

fun ws_deleted :: "jsstring \<Rightarrow> jsstring \<Rightarrow> bool" where
  "ws_deleted [] t = (t = [])"
| "ws_deleted (c # s) [] = (is_space c \<and> ws_deleted s [])"
| "ws_deleted (c # s) (d # t) =
     ((c = d \<and> ws_deleted s t) \<or> (is_space c \<and> ws_deleted s (d # t)))"

text \<open>\<open>star_then_space s\<close>: somewhere in \<open>s\<close> a star is directly followed by white space.\<close>

fun star_then_space :: "jsstring \<Rightarrow> bool" where
  "star_then_space (a # b # s) = ((a = star \<and> is_space b) \<or> star_then_space (b # s))"
| "star_then_space s = False"

text \<open>\<open>space_then_star s\<close>: somewhere in \<open>s\<close> white space is directly followed by a star.\<close>

fun space_then_star :: "jsstring \<Rightarrow> bool" where
  "space_then_star (a # b # s) = ((is_space a \<and> b = star) \<or> space_then_star (b # s))"
| "space_then_star s = False"


section \<open>A stand-in for the libraries\<close>

text \<open>
  To run the component on examples, the libraries are replaced by stubs, as a unit test
  would do: the editor keeps the HTML it was given, the two converters are tables from
  input to output and throw on an input that is not in their table. The string length
  limit is that of a widespread engine, \<open>2\<^sup>2\<^sup>9 - 24\<close>.
\<close>

record stub_editor =
  html :: jsstring
  plain :: jsstring
  anchor :: int
  block_start :: int
  focused :: bool

definition stub_convert :: "(jsstring \<times> jsstring) list \<Rightarrow> jsstring \<Rightarrow> error + jsstring" where
  "stub_convert table x =
     (case map_of table x of
        None \<Rightarrow> Inl (Error (js ''unsupported input''))
      | Some y \<Rightarrow> Inr y)"

definition stub_framework ::
  "(jsstring \<times> jsstring) list \<Rightarrow> (jsstring \<times> jsstring) list \<Rightarrow> stub_editor framework" where
  "stub_framework to_markdown to_html =
     \<lparr>getHTML = html,
      doc_textContent = plain,
      doc_textBetween = (\<lambda>e a b. take (nat (b - a)) (drop (nat a) (plain e))),
      doc_resolve_start = (\<lambda>e pos depth. block_start e),
      selection_from = anchor,
      selection_to = anchor,
      selection_anchor = anchor,
      cmd_setContent = (\<lambda>h e. e\<lparr>html := h\<rparr>),
      cmd_focus = (\<lambda>e. e\<lparr>focused := True\<rparr>),
      cmd_insertContent = (\<lambda>t e. e),
      cmd_deleteRange = (\<lambda>a b e. e),
      cmd_setTextSelection = (\<lambda>a b e. e),
      turndown = stub_convert to_markdown,
      marked_parse = stub_convert to_html,
      max_string_length = 536870888\<rparr>"

definition stub_state :: "jsstring \<Rightarrow> stub_editor state" where
  "stub_state h =
     \<lparr>editor = Some \<lparr>html = h, plain = js ''plain text'', anchor = 7, block_start = 6,
                       focused = False\<rparr>,
      console = [], content_changes = []\<rparr>"

abbreviation backtick :: jschar where "backtick \<equiv> 0x60"

text \<open>
  The stubs used in the examples: the serializer and the parser know a handful of
  documents, written as the real libraries write them.
\<close>

definition ex_env :: "stub_editor framework" where
  "ex_env = stub_framework
     [(js ''<p>one<br>two</p>'', js ''one'' @ newline # js ''two''),
      (js ''<p><strong>bold</strong> text</p>'', js ''**bold** text''),
      (js ''<p>abc</p><p>d</p>'', js ''abc'' @ newline # newline # js ''d''),
      (js ''<p><code>a * b</code></p>'', backtick # js ''a * b'' @ [backtick])]
     [(js ''**bold** text'', js ''<p><strong>bold</strong> text</p>''),
      (js ''one'' @ newline # js ''2'', js ''<p>one<br>2</p>''),
      (js ''one'' @ newline # js ''two'', js ''<p>one<br>two</p>''),
      (js ''one'' @ newline # js ''two'' @ newline # newline # newline # js ''x'',
       js ''<p>one<br>two</p><p>x</p>'')]"

section \<open>Facts about the string operations\<close>

lemma ws_deleted_refl: "ws_deleted s s"
  by (induction s) auto

lemma ws_deleted_drop: "is_space c \<Longrightarrow> ws_deleted s t \<Longrightarrow> ws_deleted (c # s) t"
  by (cases t) auto

lemma ws_deleted_all: "\<forall>c\<in>set w. is_space c \<Longrightarrow> ws_deleted s t \<Longrightarrow> ws_deleted (w @ s) t"
  by (induction w) (auto simp: ws_deleted_drop)

lemma ws_deleted_keep: "ws_deleted s t \<Longrightarrow> ws_deleted (d @ s) (d @ t)"
  by (induction d) auto


lemma ws_deleted_trans: "ws_deleted s t \<Longrightarrow> ws_deleted t u \<Longrightarrow> ws_deleted s u"
proof (induction s arbitrary: t u)
  case Nil
  then show ?case by simp
next
  case (Cons c s)
  show ?case
  proof (cases t)
    case Nil
    with Cons.prems show ?thesis by simp
  next
    case t: (Cons d t')
    show ?thesis
    proof (cases "is_space c \<and> ws_deleted s (d # t')")
      case True
      then have "ws_deleted s u" using Cons.IH Cons.prems(2) t by blast
      with True show ?thesis by (simp add: ws_deleted_drop)
    next
      case False
      with Cons.prems(1) t have cd: "c = d" and st: "ws_deleted s t'" by auto
      show ?thesis
      proof (cases u)
        case Nil
        with Cons.prems(2) t cd have "is_space c" "ws_deleted t' []" by auto
        with st Cons.IH Nil show ?thesis by auto
      next
        case u: (Cons x u')
        from Cons.prems(2) t u cd
        consider "c = x" "ws_deleted t' u'" | "is_space c" "ws_deleted t' (x # u')" by auto
        then show ?thesis
        proof cases
          case 1
          with st Cons.IH u show ?thesis by auto
        next
          case 2
          with st Cons.IH have "ws_deleted s (x # u')" by blast
          with 2 u show ?thesis by simp
        qed
      qed
    qed
  qed
qed

lemma match_delim_ws_split:
  assumes "match_delim_ws d s = Some n"
  shows "\<exists>w. w \<noteq> [] \<and> (\<forall>c\<in>set w. is_space c) \<and> s = d @ w @ drop n s
     \<and> n = length d + length w \<and> (drop n s = [] \<or> \<not> is_space (hd (drop n s)))"
proof -
  let ?r = "drop (length d) s"
  let ?w = "takeWhile is_space ?r"
  from assms have d: "take (length d) s = d" and w: "?w \<noteq> []" and n: "n = length d + length ?w"
    by (auto simp: match_delim_ws_def split: if_splits)
  have dr: "drop n s = dropWhile is_space ?r"
    by (simp add: n dropWhile_eq_drop add.commute)
  have "s = take (length d) s @ ?r" by simp
  also have "?r = ?w @ dropWhile is_space ?r" by simp
  finally have "s = d @ ?w @ drop n s" using d dr by simp
  moreover have "\<forall>c\<in>set ?w. is_space c" by (auto dest: set_takeWhileD)
  moreover have "drop n s = [] \<or> \<not> is_space (hd (drop n s))"
    unfolding dr by (metis hd_dropWhile)
  ultimately show ?thesis using w n by blast
qed

lemma match_ws_delim_split:
  assumes "match_ws_delim d s = Some n"
  shows "\<exists>w. w \<noteq> [] \<and> (\<forall>c\<in>set w. is_space c) \<and> s = w @ d @ drop n s
     \<and> n = length w + length d"
proof -
  let ?w = "takeWhile is_space s"
  let ?r = "dropWhile is_space s"
  from assms have d: "take (length d) ?r = d" and w: "?w \<noteq> []" and n: "n = length ?w + length d"
    by (auto simp: match_ws_delim_def split: if_splits)
  have dr: "drop n s = drop (length d) ?r"
    by (simp add: n dropWhile_eq_drop add.commute)
  have "s = ?w @ ?r" by simp
  also have "?r = take (length d) ?r @ drop (length d) ?r" by simp
  finally have "s = ?w @ d @ drop n s" using d dr by simp
  moreover have "\<forall>c\<in>set ?w. is_space c" by (auto dest: set_takeWhileD)
  ultimately show ?thesis using w n by blast
qed

lemma drop_pred: "0 < n \<Longrightarrow> drop (n - 1) cs = drop n (c # cs)"
  by (cases n) auto

lemma replace_delim_ws_deleted:
  "ws_deleted s (replace_all (match_delim_ws d) d s)"
proof (induction "match_delim_ws d" d s rule: replace_all.induct)
  case (1 r)
  then show ?case by simp
next
  case (2 r c cs)
  show ?case
  proof (cases "match_delim_ws r (c # cs)")
    case None
    with 2 show ?thesis by simp
  next
    case (Some n)
    from match_delim_ws_split[OF Some] obtain w where
      w: "w \<noteq> []" "\<forall>c\<in>set w. is_space c" "c # cs = r @ w @ drop n (c # cs)" "n = length r + length w"
      by blast
    then have n0: "0 < n" by simp
    have ih: "ws_deleted (drop n (c # cs)) (replace_all (match_delim_ws r) r (drop n (c # cs)))"
      using 2(2)[OF Some] drop_pred[OF n0, of cs c] by simp
    have "ws_deleted (r @ w @ drop n (c # cs)) (r @ replace_all (match_delim_ws r) r (drop n (c # cs)))"
      by (intro ws_deleted_keep ws_deleted_all w(2) ih)
    then show ?thesis using Some w(3) drop_pred[OF n0, of cs c] by simp
  qed
qed

lemma replace_ws_delim_deleted:
  "ws_deleted s (replace_all (match_ws_delim d) d s)"
proof (induction "match_ws_delim d" d s rule: replace_all.induct)
  case (1 r)
  then show ?case by simp
next
  case (2 r c cs)
  show ?case
  proof (cases "match_ws_delim r (c # cs)")
    case None
    with 2 show ?thesis by simp
  next
    case (Some n)
    from match_ws_delim_split[OF Some] obtain w where
      w: "w \<noteq> []" "\<forall>c\<in>set w. is_space c" "c # cs = w @ r @ drop n (c # cs)" "n = length w + length r"
      by blast
    then have n0: "0 < n" by simp
    have ih: "ws_deleted (drop n (c # cs)) (replace_all (match_ws_delim r) r (drop n (c # cs)))"
      using 2(2)[OF Some] drop_pred[OF n0, of cs c] by simp
    have "ws_deleted (w @ r @ drop n (c # cs)) (r @ replace_all (match_ws_delim r) r (drop n (c # cs)))"
      by (intro ws_deleted_keep ws_deleted_all w(2) ih)
    then show ?thesis using Some w(3) drop_pred[OF n0, of cs c] by simp
  qed
qed


lemma ws_deleted_hd_space:
  "ws_deleted s t \<Longrightarrow> t \<noteq> [] \<Longrightarrow> is_space (hd t) \<Longrightarrow> s \<noteq> [] \<and> is_space (hd s)"
  by (cases s; cases t) auto

lemma star_then_space_Cons:
  "star_then_space (a # s) = ((a = star \<and> s \<noteq> [] \<and> is_space (hd s)) \<or> star_then_space s)"
  by (cases s) auto

lemma ws_deleted_no_star_space:
  "ws_deleted s t \<Longrightarrow> \<not> star_then_space s \<Longrightarrow> \<not> star_then_space t"
proof (induction s arbitrary: t)
  case Nil
  then show ?case by simp
next
  case (Cons c s)
  show ?case
  proof (cases t)
    case Nil
    then show ?thesis by simp
  next
    case t: (Cons d t')
    from Cons.prems(2) have s: "\<not> star_then_space s" and cs: "\<not> (c = star \<and> s \<noteq> [] \<and> is_space (hd s))"
      by (auto simp: star_then_space_Cons)
    from Cons.prems(1) t
    consider "c = d" "ws_deleted s t'" | "is_space c" "ws_deleted s (d # t')" by auto
    then show ?thesis
    proof cases
      case 1
      have "\<not> star_then_space t'" using Cons.IH[OF 1(2) s] .
      moreover have "\<not> (d = star \<and> t' \<noteq> [] \<and> is_space (hd t'))"
        using cs 1 ws_deleted_hd_space[of s t'] by blast
      ultimately show ?thesis using t by (simp add: star_then_space_Cons)
    next
      case 2
      then show ?thesis using Cons.IH[OF 2(2) s] t by simp
    qed
  qed
qed

lemma not_space_star: "\<not> is_space star"
  by (simp add: is_space_def)

lemma hd_replace_star_ws:
  "s \<noteq> [] \<Longrightarrow> replace_all (match_delim_ws [star]) [star] s \<noteq> []
     \<and> hd (replace_all (match_delim_ws [star]) [star] s) = hd s"
  by (cases s) (auto simp: match_delim_ws_def split: option.splits if_splits)

lemma replace_star_ws_clean:
  "\<not> star_then_space (replace_all (match_delim_ws [star]) [star] s)"
proof (induction "match_delim_ws [star]" "[star]" s rule: replace_all.induct)
  case 1
  then show ?case by simp
next
  case (2 c cs)
  let ?f = "replace_all (match_delim_ws [star]) [star]"
  show ?case
  proof (cases "match_delim_ws [star] (c # cs)")
    case None
    then have ih: "\<not> star_then_space (?f cs)" using 2(1) by simp
    have "\<not> (c = star \<and> ?f cs \<noteq> [] \<and> is_space (hd (?f cs)))"
    proof
      assume a: "c = star \<and> ?f cs \<noteq> [] \<and> is_space (hd (?f cs))"
      then have "cs \<noteq> []" by auto
      with a hd_replace_star_ws[of cs] have "is_space (hd cs)" by simp
      with a \<open>cs \<noteq> []\<close> have "match_delim_ws [star] (c # cs) \<noteq> None"
        by (cases cs) (auto simp: match_delim_ws_def)
      with None show False by simp
    qed
    with ih None show ?thesis by (simp add: star_then_space_Cons)
  next
    case (Some n)
    from match_delim_ws_split[OF Some] obtain w :: jsstring where
      w: "w \<noteq> []" "n = length [star] + length w"
         "drop n (c # cs) = [] \<or> \<not> is_space (hd (drop n (c # cs)))"
      by blast
    then have n0: "0 < n" by simp
    have dr: "drop (n - 1) cs = drop n (c # cs)" using drop_pred[OF n0] .
    have ih: "\<not> star_then_space (?f (drop n (c # cs)))" using 2(2)[OF Some] dr by simp
    have "\<not> (?f (drop n (c # cs)) \<noteq> [] \<and> is_space (hd (?f (drop n (c # cs)))))"
    proof (cases "drop n (c # cs) = []")
      case True
      then show ?thesis by simp
    next
      case False
      with w(3) hd_replace_star_ws[OF False] show ?thesis by simp
    qed
    with ih Some dr show ?thesis by (simp add: star_then_space_Cons)
  qed
qed

lemma space_then_star_Cons:
  "space_then_star (a # s) = ((is_space a \<and> s \<noteq> [] \<and> hd s = star) \<or> space_then_star s)"
  by (cases s) auto

lemma ws_deleted_hd_star:
  "ws_deleted s t \<Longrightarrow> t \<noteq> [] \<Longrightarrow> hd t = star
     \<Longrightarrow> (s \<noteq> [] \<and> hd s = star) \<or> space_then_star s"
proof (induction s)
  case Nil
  then show ?case by simp
next
  case (Cons x s)
  from Cons.prems obtain t' where t: "t = star # t'" by (cases t) auto
  from Cons.prems(1) t
  consider "x = star" | "is_space x" "ws_deleted s (star # t')" by auto
  then show ?case
  proof cases
    case 1
    then show ?thesis by simp
  next
    case 2
    with Cons.IH t have "(s \<noteq> [] \<and> hd s = star) \<or> space_then_star s" by simp
    with 2 show ?thesis by (auto simp: space_then_star_Cons)
  qed
qed

lemma ws_deleted_no_space_star:
  "ws_deleted s t \<Longrightarrow> \<not> space_then_star s \<Longrightarrow> \<not> space_then_star t"
proof (induction s arbitrary: t)
  case Nil
  then show ?case by simp
next
  case (Cons c s)
  show ?case
  proof (cases t)
    case Nil
    then show ?thesis by simp
  next
    case t: (Cons d t')
    from Cons.prems(2) have s: "\<not> space_then_star s"
      and cs: "\<not> (is_space c \<and> s \<noteq> [] \<and> hd s = star)"
      by (auto simp: space_then_star_Cons)
    from Cons.prems(1) t
    consider "c = d" "ws_deleted s t'" | "is_space c" "ws_deleted s (d # t')" by auto
    then show ?thesis
    proof cases
      case 1
      have "\<not> space_then_star t'" using Cons.IH[OF 1(2) s] .
      moreover have "\<not> (is_space d \<and> t' \<noteq> [] \<and> hd t' = star)"
        using cs s 1 ws_deleted_hd_star[of s t'] by blast
      ultimately show ?thesis using t by (simp add: space_then_star_Cons)
    next
      case 2
      then show ?thesis using Cons.IH[OF 2(2) s] t by simp
    qed
  qed
qed

lemma hd_replace_ws_star:
  assumes "s \<noteq> []" and "hd (replace_all (match_ws_delim [star]) [star] s) = star"
  shows "\<exists>r. dropWhile is_space s = star # r"
proof (cases "match_ws_delim [star] s")
  case None
  with assms have "hd s = star" by (cases s) auto
  with assms(1) show ?thesis by (cases s) (auto simp: is_space_def)
next
  case (Some n)
  then have "take (Suc 0) (dropWhile is_space s) = [star]"
    by (auto simp: match_ws_delim_def split: if_splits)
  then show ?thesis by (cases "dropWhile is_space s") auto
qed

lemma replace_ws_star_clean:
  "\<not> space_then_star (replace_all (match_ws_delim [star]) [star] s)"
proof (induction "match_ws_delim [star]" "[star]" s rule: replace_all.induct)
  case 1
  then show ?case by simp
next
  case (2 c cs)
  let ?f = "replace_all (match_ws_delim [star]) [star]"
  show ?case
  proof (cases "match_ws_delim [star] (c # cs)")
    case None
    then have ih: "\<not> space_then_star (?f cs)" using 2(1) by simp
    have "\<not> (is_space c \<and> ?f cs \<noteq> [] \<and> hd (?f cs) = star)"
    proof
      assume a: "is_space c \<and> ?f cs \<noteq> [] \<and> hd (?f cs) = star"
      then have "cs \<noteq> []" by auto
      with a obtain r where "dropWhile is_space cs = star # r"
        using hd_replace_ws_star[of cs] by blast
      with a have "match_ws_delim [star] (c # cs) \<noteq> None"
        by (simp add: match_ws_delim_def)
      with None show False by simp
    qed
    with ih None show ?thesis by (simp add: space_then_star_Cons)
  next
    case (Some n)
    from match_ws_delim_split[OF Some] obtain w :: jsstring where
      w: "w \<noteq> []" "n = length w + length [star]"
      by blast
    then have n0: "0 < n" by simp
    have dr: "drop (n - 1) cs = drop n (c # cs)" using drop_pred[OF n0] .
    have ih: "\<not> space_then_star (?f (drop n (c # cs)))" using 2(2)[OF Some] dr by simp
    with Some dr show ?thesis by (simp add: space_then_star_Cons is_space_def)
  qed
qed

lemma ws_deleted_append_split:
  "ws_deleted (a @ b) t \<Longrightarrow> \<exists>ta tb. t = ta @ tb \<and> ws_deleted a ta \<and> ws_deleted b tb"
proof (induction a arbitrary: t)
  case Nil
  then show ?case by (intro exI[of _ "[]"] exI[of _ t]) simp
next
  case (Cons x a)
  show ?case
  proof (cases "is_space x \<and> ws_deleted (a @ b) t")
    case True
    with Cons.IH obtain ta tb where "t = ta @ tb" "ws_deleted a ta" "ws_deleted b tb" by blast
    with True show ?thesis by (intro exI[of _ ta] exI[of _ tb]) (simp add: ws_deleted_drop)
  next
    case False
    with Cons.prems obtain t' where t: "t = x # t'" and r: "ws_deleted (a @ b) t'"
      by (cases t) auto
    from Cons.IH[OF r] obtain ta tb where "t' = ta @ tb" "ws_deleted a ta" "ws_deleted b tb" by blast
    with t show ?thesis by (intro exI[of _ "x # ta"] exI[of _ tb]) simp
  qed
qed

lemma ws_deleted_no_space:
  "ws_deleted w t \<Longrightarrow> \<forall>c\<in>set w. \<not> is_space c \<Longrightarrow> t = w"
proof (induction w arbitrary: t)
  case Nil
  then show ?case by simp
next
  case (Cons c w)
  then show ?case by (cases t) auto
qed

lemma ws_deleted_sublist:
  assumes "ws_deleted s t" "sublist w s" "\<forall>c\<in>set w. \<not> is_space c"
  shows "sublist w t"
proof -
  from assms(2) obtain ps ss where s: "s = ps @ w @ ss" by (auto simp: sublist_def)
  from ws_deleted_append_split[of ps "w @ ss" t] assms(1) s
  obtain tp tr where t: "t = tp @ tr" and r: "ws_deleted (w @ ss) tr" by auto
  from ws_deleted_append_split[OF r] obtain tw ts where
    tr: "tr = tw @ ts" and w: "ws_deleted w tw" by auto
  from ws_deleted_no_space[OF w assms(3)] t tr show ?thesis by (auto simp: sublist_def)
qed









section \<open>Facts about the export\<close>

lemmas ex_simps = ex_env_def stub_framework_def stub_convert_def stub_state_def js_def
  is_space_def match_delim_ws_def match_ws_delim_def getMarkdownFromEditor_def
  setMarkdownToEditor_def

lemma export_cleanup_deletes_ws:
  assumes "editor s = Some e" and "turndown env (getHTML env e) = Inr md"
  shows "ws_deleted md (fst (getMarkdownFromEditor env s))"
proof -
  let ?p3 = "replace_all (match_delim_ws [star]) [star]
               (replace_all (match_ws_delim [star, star]) [star, star]
                 (replace_all (match_delim_ws [star, star]) [star, star] md))"
  let ?p6 = "replace_all (match_ws_delim [tilde, tilde]) [tilde, tilde]
               (replace_all (match_delim_ws [tilde, tilde]) [tilde, tilde]
                 (replace_all (match_ws_delim [star]) [star] ?p3))"
  have eq: "fst (getMarkdownFromEditor env s) = ?p6"
    using assms by (simp add: getMarkdownFromEditor_def)
  have "ws_deleted ?p3 ?p6"
    by (blast intro: ws_deleted_trans replace_delim_ws_deleted replace_ws_delim_deleted)
  moreover have "ws_deleted md ?p3"
    by (blast intro: ws_deleted_trans replace_delim_ws_deleted replace_ws_delim_deleted)
  ultimately have "ws_deleted md ?p6" by (blast intro: ws_deleted_trans)
  with eq show ?thesis by simp
qed

lemma export_cleanup_no_star_space:
  assumes "editor s = Some e" and "turndown env (getHTML env e) = Inr md"
  shows "\<not> star_then_space (fst (getMarkdownFromEditor env s))"
proof -
  let ?p3 = "replace_all (match_delim_ws [star]) [star]
               (replace_all (match_ws_delim [star, star]) [star, star]
                 (replace_all (match_delim_ws [star, star]) [star, star] md))"
  let ?p6 = "replace_all (match_ws_delim [tilde, tilde]) [tilde, tilde]
               (replace_all (match_delim_ws [tilde, tilde]) [tilde, tilde]
                 (replace_all (match_ws_delim [star]) [star] ?p3))"
  have eq: "fst (getMarkdownFromEditor env s) = ?p6"
    using assms by (simp add: getMarkdownFromEditor_def)
  have "ws_deleted ?p3 ?p6"
    by (blast intro: ws_deleted_trans replace_delim_ws_deleted replace_ws_delim_deleted)
  moreover have "\<not> star_then_space ?p3" by (rule replace_star_ws_clean)
  ultimately have "\<not> star_then_space ?p6" by (blast dest: ws_deleted_no_star_space)
  with eq show ?thesis by simp
qed

lemma export_cleanup_no_space_star:
  assumes "editor s = Some e" and "turndown env (getHTML env e) = Inr md"
  shows "\<not> space_then_star (fst (getMarkdownFromEditor env s))"
proof -
  let ?p4 = "replace_all (match_ws_delim [star]) [star]
              (replace_all (match_delim_ws [star]) [star]
               (replace_all (match_ws_delim [star, star]) [star, star]
                 (replace_all (match_delim_ws [star, star]) [star, star] md)))"
  let ?p6 = "replace_all (match_ws_delim [tilde, tilde]) [tilde, tilde]
               (replace_all (match_delim_ws [tilde, tilde]) [tilde, tilde] ?p4)"
  have eq: "fst (getMarkdownFromEditor env s) = ?p6"
    using assms by (simp add: getMarkdownFromEditor_def)
  have "ws_deleted ?p4 ?p6"
    by (blast intro: ws_deleted_trans replace_delim_ws_deleted replace_ws_delim_deleted)
  moreover have "\<not> space_then_star ?p4" by (rule replace_ws_star_clean)
  ultimately have "\<not> space_then_star ?p6" by (blast dest: ws_deleted_no_space_star)
  with eq show ?thesis by simp
qed




lemma export_keeps_solid_substring:
  assumes "editor s = Some e" and "turndown env (getHTML env e) = Inr md"
    and "sublist w md" and "\<forall>c\<in>set w. \<not> is_space c"
  shows "sublist w (fst (getMarkdownFromEditor env s))"
  using export_cleanup_deletes_ws[OF assms(1,2)] assms(3,4) by (rule ws_deleted_sublist)


section \<open>The claims\<close>

text \<open>
  C1. Whenever the serializer returns a string for the editor's HTML,
  \<open>getMarkdownFromEditor\<close> returns exactly that string after six substitutions, in this
  order: white space after \<^verbatim>\<open>**\<close>, before \<^verbatim>\<open>**\<close>, after \<^verbatim>\<open>*\<close>, before \<^verbatim>\<open>*\<close>, after
  \<^verbatim>\<open>~~\<close> and before \<^verbatim>\<open>~~\<close> is deleted. The pass runs over the whole text; it only
  ever deletes white space, and it leaves no star with white space directly after or
  directly before it. The example shows it reaching into a code span.
\<close>

theorem export_cleanup_passes:
  assumes "editor s = Some e" and "turndown env (getHTML env e) = Inr md"
  shows "getMarkdownFromEditor env s =
           (replace_all (match_ws_delim [tilde, tilde]) [tilde, tilde]
             (replace_all (match_delim_ws [tilde, tilde]) [tilde, tilde]
               (replace_all (match_ws_delim [star]) [star]
                 (replace_all (match_delim_ws [star]) [star]
                   (replace_all (match_ws_delim [star, star]) [star, star]
                     (replace_all (match_delim_ws [star, star]) [star, star] md))))), s)
         \<and> ws_deleted md (fst (getMarkdownFromEditor env s))
         \<and> \<not> star_then_space (fst (getMarkdownFromEditor env s))
         \<and> \<not> space_then_star (fst (getMarkdownFromEditor env s))"
proof -
  have "getMarkdownFromEditor env s =
           (replace_all (match_ws_delim [tilde, tilde]) [tilde, tilde]
             (replace_all (match_delim_ws [tilde, tilde]) [tilde, tilde]
               (replace_all (match_ws_delim [star]) [star]
                 (replace_all (match_delim_ws [star]) [star]
                   (replace_all (match_ws_delim [star, star]) [star, star]
                     (replace_all (match_delim_ws [star, star]) [star, star] md))))), s)"
    using assms by (simp add: getMarkdownFromEditor_def)
  then show ?thesis
    using export_cleanup_deletes_ws[OF assms] export_cleanup_no_star_space[OF assms]
      export_cleanup_no_space_star[OF assms] by blast
qed

theorem export_cleanup_passes_witness:
  "editor (stub_state (js ''<p><code>a * b</code></p>''))
     = Some \<lparr>html = js ''<p><code>a * b</code></p>'', plain = js ''plain text'', anchor = 7,
             block_start = 6, focused = False\<rparr>
   \<and> turndown (stub_framework
          [(js ''<p><code>a * b</code></p>'', backtick # js ''a * b'' @ [backtick])] [])
        (js ''<p><code>a * b</code></p>'')
      = Inr (backtick # js ''a * b'' @ [backtick])
   \<and> getMarkdownFromEditor
         (stub_framework
            [(js ''<p><code>a * b</code></p>'', backtick # js ''a * b'' @ [backtick])] [])
         (stub_state (js ''<p><code>a * b</code></p>''))
       = (backtick # js ''a*b'' @ [backtick], stub_state (js ''<p><code>a * b</code></p>''))"
proof -
  let ?h = "js ''<p><code>a * b</code></p>''"
  let ?env = "stub_framework [(?h, backtick # js ''a * b'' @ [backtick])] []"
  let ?e = "\<lparr>html = ?h, plain = js ''plain text'', anchor = 7, block_start = 6, focused = False\<rparr>"
  have h1: "editor (stub_state ?h) = Some ?e"
    by (simp add: stub_state_def)
  have h2: "turndown ?env (getHTML ?env ?e) = Inr (backtick # js ''a * b'' @ [backtick])"
    by (simp add: stub_framework_def stub_convert_def)
  have r: "replace_all (match_ws_delim [tilde, tilde]) [tilde, tilde]
             (replace_all (match_delim_ws [tilde, tilde]) [tilde, tilde]
               (replace_all (match_ws_delim [star]) [star]
                 (replace_all (match_delim_ws [star]) [star]
                   (replace_all (match_ws_delim [star, star]) [star, star]
                     (replace_all (match_delim_ws [star, star]) [star, star]
                        (backtick # js ''a * b'' @ [backtick]))))))
           = backtick # js ''a*b'' @ [backtick]"
    by (simp add: js_def is_space_def match_delim_ws_def match_ws_delim_def)
  have g: "getHTML ?env ?e = ?h" by (simp add: stub_framework_def)
  show ?thesis
    using h1 h2 export_cleanup_passes[OF h1 h2] r g by simp
qed




text \<open>
  C3. If the serializer throws, \<open>getMarkdownFromEditor\<close> logs the error and returns
  the plain text of the document; if the markdown parser throws,
  \<open>setMarkdownToEditor\<close> logs the error and sets the raw markdown as the content. Both
  return normally: the caller sees no error.
\<close>

theorem conversion_failures_fall_back:
  assumes "editor s = Some e"
  shows "(turndown env (getHTML env e) = Inl err \<longrightarrow>
            getMarkdownFromEditor env s =
              (doc_textContent env e,
               s\<lparr>console := console s @ [(js ''Error serializing to markdown:'', err)]\<rparr>))
       \<and> (marked_parse env markdown = Inl err \<longrightarrow>
            setMarkdownToEditor env markdown s =
              s\<lparr>console := console s @ [(js ''Error parsing markdown:'', err)],
                editor := Some (cmd_setContent env markdown e)\<rparr>)"
  using assms by (simp add: getMarkdownFromEditor_def setMarkdownToEditor_def)

theorem conversion_failures_fall_back_witness:
  "editor (stub_state (js ''<p>x</p>''))
     = Some \<lparr>html = js ''<p>x</p>'', plain = js ''plain text'', anchor = 7,
             block_start = 6, focused = False\<rparr>
   \<and> turndown (stub_framework [] []) (js ''<p>x</p>'') = Inl (Error (js ''unsupported input''))
   \<and> marked_parse (stub_framework [] []) (js ''# y'') = Inl (Error (js ''unsupported input''))
   \<and> getMarkdownFromEditor (stub_framework [] []) (stub_state (js ''<p>x</p>''))
       = (js ''plain text'',
          \<lparr>editor = Some \<lparr>html = js ''<p>x</p>'', plain = js ''plain text'', anchor = 7,
                           block_start = 6, focused = False\<rparr>,
           console = [(js ''Error serializing to markdown:'', Error (js ''unsupported input''))],
           content_changes = []\<rparr>)
   \<and> setMarkdownToEditor (stub_framework [] []) (js ''# y'') (stub_state (js ''<p>x</p>''))
       = \<lparr>editor = Some \<lparr>html = js ''# y'', plain = js ''plain text'', anchor = 7,
                          block_start = 6, focused = False\<rparr>,
          console = [(js ''Error parsing markdown:'', Error (js ''unsupported input''))],
          content_changes = []\<rparr>"
proof -
  let ?env = "stub_framework [] []"
  let ?e = "\<lparr>html = js ''<p>x</p>'', plain = js ''plain text'', anchor = 7, block_start = 6,
             focused = False\<rparr>"
  have h: "editor (stub_state (js ''<p>x</p>'')) = Some ?e"
    by (simp add: stub_state_def)
  have t: "turndown ?env (getHTML ?env ?e) = Inl (Error (js ''unsupported input''))"
    by (simp add: stub_framework_def stub_convert_def)
  have m: "marked_parse ?env (js ''# y'') = Inl (Error (js ''unsupported input''))"
    by (simp add: stub_framework_def stub_convert_def)
  have g: "getHTML ?env ?e = js ''<p>x</p>''" "doc_textContent ?env ?e = js ''plain text''"
    "cmd_setContent ?env (js ''# y'') ?e = ?e\<lparr>html := js ''# y''\<rparr>"
    by (simp_all add: stub_framework_def)
  have st: "stub_state (js ''<p>x</p>'') = \<lparr>editor = Some ?e, console = [], content_changes = []\<rparr>"
    by (simp add: stub_state_def)
  from conversion_failures_fall_back[OF h, of ?env "Error (js ''unsupported input'')" "js ''# y''"] t m
  have "getMarkdownFromEditor ?env (stub_state (js ''<p>x</p>'')) =
              (doc_textContent ?env ?e,
               (stub_state (js ''<p>x</p>''))\<lparr>console := console (stub_state (js ''<p>x</p>''))
                   @ [(js ''Error serializing to markdown:'', Error (js ''unsupported input''))]\<rparr>)"
    and "setMarkdownToEditor ?env (js ''# y'') (stub_state (js ''<p>x</p>'')) =
              (stub_state (js ''<p>x</p>''))\<lparr>console := console (stub_state (js ''<p>x</p>''))
                   @ [(js ''Error parsing markdown:'', Error (js ''unsupported input''))],
                editor := Some (cmd_setContent ?env (js ''# y'') ?e)\<rparr>"
    by blast+
  then show ?thesis using h t m g by (simp add: st)
qed

text \<open>
  C4. Import followed by export is not the identity on text. An exported text never
  has a star directly followed by white space, and the import does nothing to a text
  before parsing it; so for any input with such a star, whatever the libraries do, the
  export after the import differs from the input whenever the serializer returns. One
  such input is \<^verbatim>\<open>**bold** text\<close>.
\<close>

theorem export_never_star_space:
  assumes "editor (setMarkdownToEditor env input s) = Some e'"
    and "turndown env (getHTML env e') = Inr md"
    and "star_then_space input"
  shows "fst (getMarkdownFromEditor env (setMarkdownToEditor env input s)) \<noteq> input"
proof -
  have "\<not> star_then_space
          (fst (getMarkdownFromEditor env (setMarkdownToEditor env input s)))"
    using assms(1,2) by (rule export_cleanup_no_star_space)
  with assms(3) show ?thesis by auto
qed

theorem export_never_star_space_witness:
  "editor (setMarkdownToEditor ex_env (js ''**bold** text'') (stub_state []))
     = Some \<lparr>html = js ''<p><strong>bold</strong> text</p>'', plain = js ''plain text'',
             anchor = 7, block_start = 6, focused = False\<rparr>
   \<and> turndown ex_env (js ''<p><strong>bold</strong> text</p>'') = Inr (js ''**bold** text'')
   \<and> star_then_space (js ''**bold** text'')
   \<and> fst (getMarkdownFromEditor ex_env
             (setMarkdownToEditor ex_env (js ''**bold** text'') (stub_state [])))
       = js ''**bold**text''
   \<and> js ''**bold**text'' \<noteq> js ''**bold** text''"
proof -
  let ?e' = "\<lparr>html = js ''<p><strong>bold</strong> text</p>'', plain = js ''plain text'',
             anchor = 7, block_start = 6, focused = False\<rparr>"
  have h1: "editor (setMarkdownToEditor ex_env (js ''**bold** text'') (stub_state [])) = Some ?e'"
    by (simp add: ex_simps)
  have h2: "turndown ex_env (getHTML ex_env ?e') = Inr (js ''**bold** text'')"
    by (simp add: ex_simps)
  have h3: "star_then_space (js ''**bold** text'')"
    by (simp add: js_def is_space_def)
  have g: "getHTML ex_env ?e' = js ''<p><strong>bold</strong> text</p>''"
    by (simp add: ex_env_def stub_framework_def)
  have r: "fst (getMarkdownFromEditor ex_env
             (setMarkdownToEditor ex_env (js ''**bold** text'') (stub_state [])))
       = js ''**bold**text''"
    by (simp add: ex_simps)
  show ?thesis
    using h1 h2 h3 g r export_never_star_space[OF h1 h2 h3] by simp
qed

text \<open>
  C5, on how the result is computed. \<open>getCursorLineNumber\<close> does not derive the
  markdown text and splits nothing. With a null editor it returns 0. Otherwise its result
  is fixed by the framework's own coordinates alone, namely by the position to which the
  document resolves the selection anchor at depth 1: two editors that resolve to the
  same position give the same result, and the result is the same whatever the
  serializer and the parser are.
\<close>

theorem cursor_line_from_positions:
  assumes "editor s0 = None" and "editor s = Some e" and "editor s' = Some e'"
    and "doc_resolve_start env e (selection_anchor env e) 1
           = doc_resolve_start env' e' (selection_anchor env' e') 1"
  shows "getCursorLineNumber env s0 = 0
       \<and> getCursorLineNumber env s = getCursorLineNumber env' s'
       \<and> getCursorLineNumber (env\<lparr>turndown := t, marked_parse := p\<rparr>) s
           = getCursorLineNumber env s"
  using assms by (simp add: getCursorLineNumber_def)

theorem cursor_line_from_positions_witness:
  "editor \<lparr>editor = None :: stub_editor option, console = [], content_changes = []\<rparr> = None
   \<and> editor (stub_state (js ''<p>abc</p><p>d</p>''))
       = Some \<lparr>html = js ''<p>abc</p><p>d</p>'', plain = js ''plain text'', anchor = 7,
               block_start = 6, focused = False\<rparr>
   \<and> editor (stub_state (js ''<p>x</p><p>y</p>''))
       = Some \<lparr>html = js ''<p>x</p><p>y</p>'', plain = js ''plain text'', anchor = 7,
               block_start = 6, focused = False\<rparr>
   \<and> getCursorLineNumber ex_env
         \<lparr>editor = None, console = [], content_changes = []\<rparr> = 0
   \<and> getCursorLineNumber ex_env (stub_state (js ''<p>abc</p><p>d</p>''))
       = getCursorLineNumber (stub_framework [] []) (stub_state (js ''<p>x</p><p>y</p>''))
   \<and> getCursorLineNumber
         (ex_env\<lparr>turndown := stub_convert [], marked_parse := stub_convert []\<rparr>)
         (stub_state (js ''<p>abc</p><p>d</p>''))
       = getCursorLineNumber ex_env (stub_state (js ''<p>abc</p><p>d</p>''))"
proof -
  let ?e = "\<lparr>html = js ''<p>abc</p><p>d</p>'', plain = js ''plain text'', anchor = 7,
             block_start = 6, focused = False\<rparr>"
  let ?e' = "\<lparr>html = js ''<p>x</p><p>y</p>'', plain = js ''plain text'', anchor = 7,
             block_start = 6, focused = False\<rparr>"
  have h0: "editor \<lparr>editor = None :: stub_editor option, console = [], content_changes = []\<rparr>
      = None"
    by simp
  have h1: "editor (stub_state (js ''<p>abc</p><p>d</p>'')) = Some ?e"
    by (simp add: stub_state_def)
  have h2: "editor (stub_state (js ''<p>x</p><p>y</p>'')) = Some ?e'"
    by (simp add: stub_state_def)
  have h3: "doc_resolve_start ex_env ?e (selection_anchor ex_env ?e) 1
      = doc_resolve_start (stub_framework [] []) ?e' (selection_anchor (stub_framework [] []) ?e') 1"
    by (simp add: ex_env_def stub_framework_def)
  show ?thesis
    using h0 h1 h2
      cursor_line_from_positions[OF h0 h1 h2 h3, of "stub_convert []" "stub_convert []"]
    by simp
qed

text \<open>
  C5, as the specification words it, fails. With the cursor in the second of two
  paragraphs the exported markdown has three lines, yet the accessor answers 5, which is
  no index into them; and with a serializer that throws on every input, so that no
  markdown can be derived at all, it still answers 5.
\<close>

theorem cursor_line_not_from_text:
  "getMarkdownFromEditor ex_env (stub_state (js ''<p>abc</p><p>d</p>''))
     = (js ''abc'' @ newline # newline # js ''d'', stub_state (js ''<p>abc</p><p>d</p>''))
   \<and> str_split newline (js ''abc'' @ newline # newline # js ''d'') = [js ''abc'', [], js ''d'']
   \<and> getCursorLineNumber ex_env (stub_state (js ''<p>abc</p><p>d</p>'')) = 5
   \<and> \<not> getCursorLineNumber ex_env (stub_state (js ''<p>abc</p><p>d</p>''))
         < int (length (str_split newline
             (fst (getMarkdownFromEditor ex_env (stub_state (js ''<p>abc</p><p>d</p>''))))))
   \<and> fst (getMarkdownFromEditor (stub_framework [] []) (stub_state (js ''<p>abc</p><p>d</p>'')))
     = js ''plain text''
   \<and> getCursorLineNumber (stub_framework [] []) (stub_state (js ''<p>abc</p><p>d</p>'')) = 5"
proof -
  have "getMarkdownFromEditor ex_env (stub_state (js ''<p>abc</p><p>d</p>''))
     = (js ''abc'' @ newline # newline # js ''d'', stub_state (js ''<p>abc</p><p>d</p>''))"
    by (simp add: ex_simps)
  moreover have "str_split newline (js ''abc'' @ newline # newline # js ''d'') = [js ''abc'', [], js ''d'']"
    by (simp add: js_def)
  moreover have "getCursorLineNumber ex_env (stub_state (js ''<p>abc</p><p>d</p>'')) = 5"
    by (simp add: getCursorLineNumber_def ex_env_def stub_framework_def stub_state_def)
  moreover have "fst (getMarkdownFromEditor (stub_framework [] []) (stub_state (js ''<p>abc</p><p>d</p>'')))
     = js ''plain text''"
    by (simp add: ex_simps)
  moreover have "getCursorLineNumber (stub_framework [] []) (stub_state (js ''<p>abc</p><p>d</p>'')) = 5"
    by (simp add: getCursorLineNumber_def stub_framework_def stub_state_def)
  ultimately show ?thesis by simp
qed

lemma getMarkdownFromEditor_keeps:
  "editor (snd (getMarkdownFromEditor env s)) = editor s"
  "content_changes (snd (getMarkdownFromEditor env s)) = content_changes s"
  by (auto simp: getMarkdownFromEditor_def Let_def split: option.splits sum.splits)

text \<open>
  C8. On a document change the handler calls the content-change callback exactly once,
  with the markdown that the export pipeline \<open>getMarkdownFromEditor\<close> gives for the
  current document; the editor itself is left as it was.
\<close>

theorem onUpdate_emits_export_once:
  "content_changes (onUpdate env s) = content_changes s @ [fst (getMarkdownFromEditor env s)]
   \<and> editor (onUpdate env s) = editor s"
  using getMarkdownFromEditor_keeps[of env s]
  by (simp add: onUpdate_def split_beta)

text \<open>
  C9. While the editor instance is null, every operation of the imperative handle
  returns normally and changes nothing: \<open>getContent\<close>, \<open>getLine\<close> and
  \<open>getSelectedContent\<close> give the empty string, \<open>getCursorPosition\<close> and
  \<open>getCursorLineNumber\<close> give 0, and \<open>focus\<close>, \<open>insertText\<close>, \<open>removeText\<close>,
  \<open>setContent\<close>, \<open>setLine\<close>, \<open>setCursorPosition\<close> and \<open>scrollToCursor\<close> leave the
  state as it is.
\<close>

theorem null_editor_benign:
  assumes "editor s = None"
  shows "getContent env s = ([], s) \<and> getLine env n s = ([], s)
     \<and> getSelectedContent env s = [] \<and> getCursorPosition env s = 0
     \<and> getCursorLineNumber env s = 0 \<and> focus env s = s
     \<and> insertText env content prefixText suffixText s = s
     \<and> removeText env start len s = s \<and> setContent env str s = s
     \<and> setLine env n str s = (None, s) \<and> setCursorPosition env startPos endPos s = s
     \<and> scrollToCursor env s = s"
  using assms
  by (simp add: getContent_def getMarkdownFromEditor_def getLine_def getSelectedContent_def
      getCursorPosition_def getCursorLineNumber_def focus_def insertText_def removeText_def
      setContent_def setMarkdownToEditor_def setLine_def setCursorPosition_def
      scrollToCursor_def)

theorem null_editor_benign_witness:
  "editor \<lparr>editor = None :: stub_editor option, console = [], content_changes = []\<rparr> = None
   \<and> getLine (stub_framework [] []) 3
         \<lparr>editor = None, console = [], content_changes = []\<rparr>
       = ([], \<lparr>editor = None, console = [], content_changes = []\<rparr>)
   \<and> setLine (stub_framework [] []) 3 (js ''x'')
         \<lparr>editor = None, console = [], content_changes = []\<rparr>
       = (None, \<lparr>editor = None, console = [], content_changes = []\<rparr>)
   \<and> getCursorLineNumber (stub_framework [] [])
         \<lparr>editor = None, console = [], content_changes = []\<rparr> = 0"
proof -
  have h: "editor \<lparr>editor = None :: stub_editor option, console = [], content_changes = []\<rparr> = None"
    by simp
  show ?thesis
    using h null_editor_benign[OF h, where env = "stub_framework [] []" and n = 3 and str = "js ''x''"]
    by simp
qed




end
